theory Spec2Isabelle
  imports Complex_Main "HOL-Library.Word"
begin

section \<open>Arduino strings\<close>

text \<open>
  An Arduino \<open>String\<close> is a byte string with an explicit length; it is modelled as a
  \<open>string\<close> (a list of bytes). \<open>length()\<close> is \<open>length\<close>, \<open>+\<close> and \<open>+=\<close> are \<open>@\<close>.
  A \<open>const char*\<close> argument is a \<open>string option\<close>, \<open>None\<close> being \<open>nullptr\<close>.
\<close>

definition CR :: char where
  "CR = CHR 0x0D"

definition LF :: char where
  "LF = CHR 0x0A"

definition CRLF :: string where
  "CRLF = [CR, LF]"

text \<open>The error codes of \<open>doubao_api.cpp\<close>, lines 5 to 10.\<close>

definition ERROR_NETWORK :: string where
  "ERROR_NETWORK = ''<network_error>''"

definition ERROR_CAMERA :: string where
  "ERROR_CAMERA = ''<camera_error>''"

definition ERROR_IMAGE_TOO_LARGE :: string where
  "ERROR_IMAGE_TOO_LARGE = ''<image_too_large>''"

definition ERROR_INVALID_INPUT :: string where
  "ERROR_INVALID_INPUT = ''<invalid_input>''"

definition ERROR_JSON_PARSE :: string where
  "ERROR_JSON_PARSE = ''<json_parse_error>''"

definition ERROR_TIMEOUT :: string where
  "ERROR_TIMEOUT = ''<timeout_error>''"

text \<open>
  \<open>String::substring(left, right)\<close> of the Arduino core: the bounds are swapped when
  \<open>left > right\<close>, the result is empty when \<open>left\<close> is at or past the end, and \<open>right\<close>
  is clipped to the length. The one-argument form runs to the end of the string.
\<close>

definition substring :: "string \<Rightarrow> nat \<Rightarrow> nat \<Rightarrow> string" where
  "substring s left right =
     (let l = (if left > right then right else left);
          r = (if left > right then left else right)
      in if l \<ge> length s then []
         else take (min r (length s) - l) (drop l s))"

definition substringFrom :: "string \<Rightarrow> nat \<Rightarrow> string" where
  "substringFrom s left = substring s left (length s)"

text \<open>
  \<open>String::indexOf(pattern)\<close>: the index of the first occurrence of the pattern, or
  \<open>-1\<close> when there is none. This is the documented result; the Arduino core computes
  it with \<open>strstr\<close>, which gives the same for a string without a NUL byte.
\<close>

fun indexOfFrom :: "string \<Rightarrow> string \<Rightarrow> int \<Rightarrow> int" where
  "indexOfFrom pat [] i = (if pat = [] then i else -1)"
| "indexOfFrom pat (c # cs) i =
     (if take (length pat) (c # cs) = pat then i else indexOfFrom pat cs (i + 1))"

definition indexOf :: "string \<Rightarrow> string \<Rightarrow> int" where
  "indexOf s pat = indexOfFrom pat s 0"

text \<open>\<open>String(value, HEX)\<close>: the lower-case hexadecimal digits of a non-negative value.\<close>

definition hexDigit :: "nat \<Rightarrow> char" where
  "hexDigit d = (''0123456789abcdef'') ! d"

fun hexString :: "nat \<Rightarrow> string" where
  "hexString n = (if n < 16 then [hexDigit n] else hexString (n div 16) @ [hexDigit (n mod 16)])"

declare hexString.simps [simp del]

section \<open>The transport: \<open>sendHttpRequest\<close>\<close>

text \<open>
  What one call does to the outside world is recorded as a list of events, in order:
  \<open>Print s\<close> is \<open>client.print(s)\<close>, \<open>Delay n\<close> is \<open>delay(n)\<close> and \<open>Stop\<close> is
  \<open>client.stop()\<close>. Diagnostic output on \<open>Serial\<close> is left out.
\<close>

datatype event = Print string | Delay int | Stop

text \<open>
  The chunk loop, lines 47 to 59. The variables \<open>chunkSize\<close>, \<open>totalLength\<close> and \<open>sent\<close>
  are C \<open>int\<close>s; the payload of a device with less than 2 GiB of memory has a length
  below \<open>2^31\<close>, so no conversion wraps.
\<close>

definition chunkSize :: int where
  "chunkSize = 4096"

function chunkLoop :: "string \<Rightarrow> int \<Rightarrow> int \<Rightarrow> event list" where
  "chunkLoop payload totalLength sent =
     (if sent < totalLength then
        (let currentChunkSize = min chunkSize (totalLength - sent);
             chunk = substring payload (nat sent) (nat (sent + currentChunkSize));
             chunkHeader = hexString (nat currentChunkSize) @ CRLF
         in [Print chunkHeader, Print chunk, Print CRLF, Delay 5]
            @ chunkLoop payload totalLength (sent + currentChunkSize))
      else [])"
  by pat_completeness auto
termination
  by (relation "measure (\<lambda>(payload, totalLength, sent). nat (totalLength - sent))")
     (auto simp: chunkSize_def)

declare chunkLoop.simps [simp del]

text \<open>
  The data chunks of a trace of the loop: every iteration writes a header, the chunk
  body and a line terminator and then pauses, so the headers are the first and the
  bodies the second write of every group of four events.
\<close>

fun chunkBodies :: "event list \<Rightarrow> string list" where
  "chunkBodies (Print h # Print c # Print t # Delay d # rest) = c # chunkBodies rest"
| "chunkBodies _ = []"

fun chunkHeaders :: "event list \<Rightarrow> string list" where
  "chunkHeaders (Print h # Print c # Print t # Delay d # rest) = h # chunkHeaders rest"
| "chunkHeaders _ = []"

text \<open>
  The read loop, lines 63 to 68. Each iteration observes the socket once: whether it is
  still connected, the clock (\<open>millis()\<close>, an \<open>unsigned long\<close> of 32 bits on the ESP32),
  the number of bytes available and, when there are some, what \<open>readString()\<close> returns.
  The observations of one call are a list; when it is exhausted the peer has closed the
  connection, which is how the loop ends under \<open>Connection: close\<close>.
\<close>

record poll =
  connected :: bool
  millis :: "32 word"
  available :: int
  readString :: string

fun readLoop :: "poll list \<Rightarrow> 32 word \<Rightarrow> string \<Rightarrow> string \<times> event list" where
  "readLoop [] timeout response = (response, [])"
| "readLoop (p # ps) timeout response =
     (if connected p \<and> millis p < timeout then
        (let response' = (if available p \<noteq> 0 then response @ readString p else response)
         in case readLoop ps timeout response' of (r, evs) \<Rightarrow> (r, Delay 10 # evs))
      else (response, []))"

text \<open>
  The network as one call of the transport meets it: whether \<open>client.connect\<close> succeeds,
  the value of \<open>millis()\<close> when the deadline is computed (line 62), and the observations
  of the read loop.
\<close>

record net =
  connect_ok :: bool
  now :: "32 word"
  polls :: "poll list"

text \<open>
  The JSON library (ArduinoJson) is not part of the repository and is a parameter:
  \<open>deserializeJson\<close> returns the document, or \<open>None\<close> where the library reports a
  \<open>DeserializationError\<close>, and \<open>choiceContent\<close> is
  \<open>jsonDoc["choices"][0]["message"]["content"].as<String>()\<close>.
\<close>

record 'doc json_lib =
  deserializeJson :: "string \<Rightarrow> 'doc option"
  choiceContent :: "'doc \<Rightarrow> string"

text \<open>\<open>String(apiKey)\<close> for a \<open>const char*\<close>: the empty string for \<open>nullptr\<close>.\<close>

definition String_of_cstr :: "string option \<Rightarrow> string" where
  "String_of_cstr p = (case p of None \<Rightarrow> [] | Some s \<Rightarrow> s)"

text \<open>The request line and headers, lines 39 to 45.\<close>

definition requestHead :: "string option \<Rightarrow> string" where
  "requestHead apiKey =
     ''POST /api/v3/chat/completions HTTP/1.1'' @ CRLF
     @ ''Host: ark.cn-beijing.volces.com'' @ CRLF
     @ ''Content-Type: application/json'' @ CRLF
     @ (''Authorization: Bearer '' @ String_of_cstr apiKey @ CRLF)
     @ ''Transfer-Encoding: chunked'' @ CRLF
     @ ''Connection: close'' @ CRLF
     @ CRLF"

text \<open>The terminating zero-length chunk, line 60.\<close>

definition lastChunk :: string where
  "lastChunk = ''0'' @ CRLF @ CRLF"

text \<open>Everything the transport writes once connected, lines 46 to 60.\<close>

definition sendRequest :: "string \<Rightarrow> string option \<Rightarrow> event list" where
  "sendRequest payload apiKey =
     Print (requestHead apiKey) # chunkLoop payload (int (length payload)) 0 @ [Print lastChunk]"

text \<open>The separation of the header block from the body, lines 71 to 74.\<close>

definition extractBody :: "string \<Rightarrow> string" where
  "extractBody response =
     (let jsonStart = indexOf response (CRLF @ CRLF)
      in if jsonStart > 0 then substringFrom response (nat (jsonStart + 4)) else response)"

definition sendHttpRequest ::
  "'doc json_lib \<Rightarrow> net \<Rightarrow> string \<Rightarrow> string option \<Rightarrow> string \<times> event list" where
  "sendHttpRequest J nw payload apiKey =
     (if \<not> connect_ok nw then (ERROR_NETWORK, [])
      else
        (let sending = sendRequest payload apiKey;
             (response, reading) = readLoop (polls nw) (now nw + 300000) [];
             wire = sending @ reading @ [Stop]
         in if length response > 0 then
              (case deserializeJson J (extractBody response) of
                 Some jsonDoc \<Rightarrow> (choiceContent J jsonDoc, wire)
               | None \<Rightarrow> (ERROR_JSON_PARSE, wire))
            else (ERROR_TIMEOUT, wire)))"

section \<open>The retry policy: \<open>sendHttpRequestWithRetry\<close>\<close>

text \<open>
  A run of the policy is the value it returns and what it did, in order: \<open>Invoke evs\<close> is
  one call of \<open>sendHttpRequest\<close> with the events of that call, \<open>Sleep d\<close> is the policy's
  own \<open>delay(d)\<close> of line 103. The network of the attempt with index \<open>i\<close> is \<open>nets i\<close>.
  The loop variable and \<open>maxRetries\<close> are C \<open>int\<close>s; \<open>1000 * (i + 1)\<close> stays within
  the range of \<open>int\<close> for every index below 2147483.
\<close>

datatype action = Invoke "event list" | Sleep int

function retryLoop ::
  "'doc json_lib \<Rightarrow> (nat \<Rightarrow> net) \<Rightarrow> string \<Rightarrow> string option \<Rightarrow> int \<Rightarrow> int \<Rightarrow> string
     \<Rightarrow> string \<times> action list" where
  "retryLoop J nets payload apiKey maxRetries i result =
     (if i < maxRetries then
        (case sendHttpRequest J (nets (nat i)) payload apiKey of
           (result', evs) \<Rightarrow>
             if result' \<noteq> ERROR_NETWORK \<and> result' \<noteq> ERROR_TIMEOUT then (result', [Invoke evs])
             else
               (let pause = (if i < maxRetries - 1 then [Sleep (1000 * (i + 1))] else [])
                in case retryLoop J nets payload apiKey maxRetries (i + 1) result' of
                     (r, acts) \<Rightarrow> (r, Invoke evs # pause @ acts)))
      else (result, []))"
  by pat_completeness auto
termination
  by (relation "measure (\<lambda>(J, nets, payload, apiKey, maxRetries, i, result). nat (maxRetries - i))")
     auto

declare retryLoop.simps [simp del]

definition sendHttpRequestWithRetry ::
  "'doc json_lib \<Rightarrow> (nat \<Rightarrow> net) \<Rightarrow> string \<Rightarrow> string option \<Rightarrow> int \<Rightarrow> string \<times> action list" where
  "sendHttpRequestWithRetry J nets payload apiKey maxRetries =
     retryLoop J nets payload apiKey maxRetries 0 []"

text \<open>The transport invocations and the backoff delays of a run.\<close>

fun invocations :: "action list \<Rightarrow> nat" where
  "invocations [] = 0"
| "invocations (Invoke evs # acts) = Suc (invocations acts)"
| "invocations (Sleep d # acts) = invocations acts"

fun backoff :: "action list \<Rightarrow> int list" where
  "backoff [] = []"
| "backoff (Invoke evs # acts) = backoff acts"
| "backoff (Sleep d # acts) = d # backoff acts"

section \<open>Payload construction and the entry points\<close>

text \<open>
  A \<open>float\<close> argument is modelled by the real number it denotes. \<open>String(temp)\<close>, the
  Arduino core's rendering of a \<open>float\<close> with two decimals, is a parameter
  \<open>floatString\<close>.
\<close>

definition validateConfig :: "string option \<Rightarrow> string \<Rightarrow> real \<Rightarrow> bool" where
  "validateConfig apiKey modelId temp =
     (case apiKey of
        None \<Rightarrow> False
      | Some key \<Rightarrow>
          if length key = 0 then False
          else if length modelId = 0 then False
          else if temp < 0 \<or> temp > 1 then False
          else True)"

definition buildPayload ::
  "(real \<Rightarrow> string) \<Rightarrow> string \<Rightarrow> string \<Rightarrow> string \<Rightarrow> real \<Rightarrow> string \<Rightarrow> string \<Rightarrow> string" where
  \<open>buildPayload floatString inputText modelId systemPrompt temp base64Image imageFormat =
     ''{''
     @ (''"model":"'' @ modelId @ ''",'')
     @ ''"messages":[''
     @ (''{"role":"system","content":"'' @ systemPrompt @ ''"},'')
     @ ''{''
     @ ''"role":"user",''
     @ ''"content":[''
     @ (if base64Image \<noteq> [] \<and> base64Image \<noteq> ''NULL'' then
          ''{"type":"image_url",''
          @ (''"image_url":{"url":"data:image/'' @ imageFormat @ '';base64,'' @ base64Image @ ''"}},'')
        else [])
     @ (''{"type":"text","text":"'' @ inputText @ ''"}'')
     @ '']''
     @ ''}''
     @ ''],''
     @ (''"temperature":'' @ floatString temp)
     @ ''}''\<close>

text \<open>
  The entry points take the JSON library, \<open>floatString\<close> and the networks of the
  attempts; \<open>sendHttpRequestWithRetry(payload, apiKey)\<close> is called with the default
  \<open>maxRetries = 3\<close> of the header. The text-only entry point calls \<open>buildPayload\<close> with
  the defaults of the header, an empty \<open>base64Image\<close> and an empty \<open>imageFormat\<close>.
\<close>

definition getGPTAnswer ::
  "'doc json_lib \<Rightarrow> (real \<Rightarrow> string) \<Rightarrow> (nat \<Rightarrow> net) \<Rightarrow>
   string \<Rightarrow> string option \<Rightarrow> string \<Rightarrow> string \<Rightarrow> real \<Rightarrow> string \<times> action list" where
  "getGPTAnswer J floatString nets inputText apiKey modelId systemPrompt temp =
     (if \<not> validateConfig apiKey modelId temp then (ERROR_INVALID_INPUT, [])
      else if length inputText = 0 then (ERROR_INVALID_INPUT, [])
      else
        (let payload = buildPayload floatString inputText modelId systemPrompt temp [] []
         in sendHttpRequestWithRetry J nets payload apiKey 3))"

definition getGPTAnswer_urlimg ::
  "'doc json_lib \<Rightarrow> (real \<Rightarrow> string) \<Rightarrow> (nat \<Rightarrow> net) \<Rightarrow>
   string \<Rightarrow> string \<Rightarrow> string option \<Rightarrow> string \<Rightarrow> string \<Rightarrow> real \<Rightarrow> string \<times> action list" where
  \<open>getGPTAnswer_urlimg J floatString nets inputText imageUrl apiKey modelId systemPrompt temp =
     (if length inputText = 0 then (ERROR_INVALID_INPUT, [])
      else
        (let payload =
               ''{''
               @ (''"model":"'' @ modelId @ ''",'')
               @ ''"messages":[''
               @ (''{"role":"system","content":"'' @ systemPrompt @ ''"},'')
               @ (if imageUrl \<noteq> [] then
                    ''{"role":"user","content":[''
                    @ (''{"type":"image_url","image_url":{"url":"'' @ imageUrl @ ''"}},'')
                    @ (''{"type":"text","text":"'' @ inputText @ ''"}'')
                    @ '']}''
                  else ''{"role":"user","content":"'' @ inputText @ ''"}'')
               @ ''],''
               @ (''"temperature":'' @ floatString temp)
               @ ''}''
         in sendHttpRequestWithRetry J nets payload apiKey 3))\<close>

text \<open>
  The camera helper \<open>K10_base64\<close> is not part of the repository; what
  \<open>K10tobase64()\<close> returns is the parameter \<open>captured\<close>.
\<close>

definition getGPTAnswer_camera ::
  "'doc json_lib \<Rightarrow> (real \<Rightarrow> string) \<Rightarrow> (nat \<Rightarrow> net) \<Rightarrow> string \<Rightarrow>
   string \<Rightarrow> string option \<Rightarrow> string \<Rightarrow> string \<Rightarrow> real \<Rightarrow> string \<times> action list" where
  "getGPTAnswer_camera J floatString nets captured inputText apiKey modelId systemPrompt temp =
     (if length inputText = 0 then (ERROR_INVALID_INPUT, [])
      else
        (let base64Image = captured
         in if base64Image = ''NULL'' \<or> length base64Image = 0 then (ERROR_CAMERA, [])
            else
              (let payload = buildPayload floatString inputText modelId systemPrompt temp
                               base64Image ''jpg''
               in sendHttpRequestWithRetry J nets payload apiKey 3)))"

section \<open>A reference JSON reader\<close>

text \<open>
  The claims about the documents that the payload builders produce, and the concrete
  runs of the transport, need a reading of JSON text. This is a reader for the grammar
  of RFC 8259: a scanner that turns the text into tokens and a pushdown recogniser
  that builds the value. Numbers keep their text. Escapes of the form \<open>\uXXXX\<close>, which
  nothing here needs, are not read: a text that has one is refused.
\<close>

datatype json =
    JNull
  | JBool bool
  | JNumber string
  | JString string
  | JArray "json list"
  | JObject "(string \<times> json) list"

datatype token =
    TLBrace | TRBrace | TLBracket | TRBracket | TColon | TComma
  | TString string | TNumber string | TWord string

definition DQUOTE :: char where
  "DQUOTE = CHR 0x22"

definition BACKSLASH :: char where
  "BACKSLASH = CHR 0x5C"

definition isSpace :: "char \<Rightarrow> bool" where
  "isSpace c = (c = CHR 0x20 \<or> c = CHR 0x09 \<or> c = LF \<or> c = CR)"

definition isDigit :: "char \<Rightarrow> bool" where
  "isDigit c = (c \<in> set ''0123456789'')"

definition isNumberChar :: "char \<Rightarrow> bool" where
  "isNumberChar c = (isDigit c \<or> c \<in> set ''+-.eE'')"

definition isLetter :: "char \<Rightarrow> bool" where
  "isLetter c = (c \<in> set ''abcdefghijklmnopqrstuvwxyz'')"

definition isControl :: "char \<Rightarrow> bool" where
  "isControl c = (of_char c < (32 :: nat))"

definition unescape :: "char \<Rightarrow> char option" where
  "unescape c =
     (if c = DQUOTE then Some DQUOTE
      else if c = BACKSLASH then Some BACKSLASH
      else if c = CHR ''/'' then Some (CHR ''/'')
      else if c = CHR ''b'' then Some (CHR 0x08)
      else if c = CHR ''f'' then Some (CHR 0x0C)
      else if c = CHR ''n'' then Some LF
      else if c = CHR ''r'' then Some CR
      else if c = CHR ''t'' then Some (CHR 0x09)
      else None)"

text \<open>
  The number grammar: an optional minus, an integer part without a leading zero, an
  optional fraction and an optional exponent, each with at least one digit.
\<close>

definition dropSign :: "string \<Rightarrow> string" where
  "dropSign s = (case s of [] \<Rightarrow> [] | c # r \<Rightarrow> if c = CHR ''+'' \<or> c = CHR ''-'' then r else s)"

definition validExponent :: "string \<Rightarrow> bool" where
  "validExponent s =
     (case s of
        [] \<Rightarrow> True
      | c # r \<Rightarrow> (c = CHR ''e'' \<or> c = CHR ''E'') \<and> dropSign r \<noteq> [] \<and> list_all isDigit (dropSign r))"

definition validFraction :: "string \<Rightarrow> bool" where
  "validFraction s =
     (case s of
        [] \<Rightarrow> True
      | c # r \<Rightarrow>
          if c = CHR ''.'' then takeWhile isDigit r \<noteq> [] \<and> validExponent (dropWhile isDigit r)
          else validExponent s)"

definition validNumber :: "string \<Rightarrow> bool" where
  "validNumber s =
     (let u = (case s of [] \<Rightarrow> [] | c # r \<Rightarrow> if c = CHR ''-'' then r else s)
      in case u of
           [] \<Rightarrow> False
         | d # r \<Rightarrow>
             if d = CHR ''0'' then validFraction r
             else isDigit d \<and> validFraction (dropWhile isDigit r))"

definition isWord :: "string \<Rightarrow> bool" where
  "isWord w = (w = ''true'' \<or> w = ''false'' \<or> w = ''null'')"

datatype mode = Idle | InString string | InEscape string | InNumber string | InWord string

fun emit :: "token \<Rightarrow> token list option \<Rightarrow> token list option" where
  "emit t None = None"
| "emit t (Some ts) = Some (t # ts)"

function scan :: "mode \<Rightarrow> string \<Rightarrow> token list option" where
  "scan Idle [] = Some []"
| "scan Idle (c # cs) =
     (if isSpace c then scan Idle cs
      else if c = CHR ''{'' then emit TLBrace (scan Idle cs)
      else if c = CHR ''}'' then emit TRBrace (scan Idle cs)
      else if c = CHR ''['' then emit TLBracket (scan Idle cs)
      else if c = CHR '']'' then emit TRBracket (scan Idle cs)
      else if c = CHR '':'' then emit TColon (scan Idle cs)
      else if c = CHR '','' then emit TComma (scan Idle cs)
      else if c = DQUOTE then scan (InString []) cs
      else if c = CHR ''-'' \<or> isDigit c then scan (InNumber [c]) cs
      else if isLetter c then scan (InWord [c]) cs
      else None)"
| "scan (InString acc) [] = None"
| "scan (InString acc) (c # cs) =
     (if c = DQUOTE then emit (TString acc) (scan Idle cs)
      else if c = BACKSLASH then scan (InEscape acc) cs
      else if isControl c then None
      else scan (InString (acc @ [c])) cs)"
| "scan (InEscape acc) [] = None"
| "scan (InEscape acc) (c # cs) =
     (case unescape c of None \<Rightarrow> None | Some d \<Rightarrow> scan (InString (acc @ [d])) cs)"
| "scan (InNumber acc) [] = (if validNumber acc then Some [TNumber acc] else None)"
| "scan (InNumber acc) (c # cs) =
     (if isNumberChar c then scan (InNumber (acc @ [c])) cs
      else if validNumber acc then emit (TNumber acc) (scan Idle (c # cs))
      else None)"
| "scan (InWord acc) [] = (if isWord acc then Some [TWord acc] else None)"
| "scan (InWord acc) (c # cs) =
     (if isLetter c then scan (InWord (acc @ [c])) cs
      else if isWord acc then emit (TWord acc) (scan Idle (c # cs))
      else None)"
  by pat_completeness auto
termination
  by (relation "measures [\<lambda>(m, s). length s, \<lambda>(m, s). (if m = Idle then 0 else 1)]") auto

text \<open>
  The recogniser keeps a stack of the containers that are open: an array with the
  elements read so far, an object with its members, or an object whose member with the
  given key is being read. What it expects next is its state.
\<close>

datatype frame =
    Arr "json list"
  | Obj "(string \<times> json) list"
  | ObjVal "(string \<times> json) list" string

datatype expect = Val | ValOrEnd | KeyOrEnd | Key | Colon | Sep | End json

fun deliver :: "json \<Rightarrow> frame list \<Rightarrow> (frame list \<times> expect) option" where
  "deliver v [] = Some ([], End v)"
| "deliver v (Arr es # st) = Some (Arr (es @ [v]) # st, Sep)"
| "deliver v (ObjVal ms k # st) = Some (Obj (ms @ [(k, v)]) # st, Sep)"
| "deliver v (Obj ms # st) = None"

fun openValue :: "frame list \<Rightarrow> token \<Rightarrow> (frame list \<times> expect) option" where
  "openValue st (TString s) = deliver (JString s) st"
| "openValue st (TNumber n) = deliver (JNumber n) st"
| "openValue st (TWord w) =
     (if w = ''true'' then deliver (JBool True) st
      else if w = ''false'' then deliver (JBool False) st
      else if w = ''null'' then deliver JNull st
      else None)"
| "openValue st TLBracket = Some (Arr [] # st, ValOrEnd)"
| "openValue st TLBrace = Some (Obj [] # st, KeyOrEnd)"
| "openValue st _ = None"

fun step :: "frame list \<Rightarrow> expect \<Rightarrow> token \<Rightarrow> (frame list \<times> expect) option" where
  "step st Val t = openValue st t"
| "step (Arr es # st) ValOrEnd TRBracket = deliver (JArray es) st"
| "step st ValOrEnd t = openValue st t"
| "step (Obj ms # st) KeyOrEnd TRBrace = deliver (JObject ms) st"
| "step (Obj ms # st) KeyOrEnd (TString k) = Some (ObjVal ms k # st, Colon)"
| "step (Obj ms # st) Key (TString k) = Some (ObjVal ms k # st, Colon)"
| "step st Colon TColon = Some (st, Val)"
| "step (Arr es # st) Sep TComma = Some (Arr es # st, Val)"
| "step (Arr es # st) Sep TRBracket = deliver (JArray es) st"
| "step (Obj ms # st) Sep TComma = Some (Obj ms # st, Key)"
| "step (Obj ms # st) Sep TRBrace = deliver (JObject ms) st"
| "step st e t = None"

fun recognise :: "frame list \<Rightarrow> expect \<Rightarrow> token list \<Rightarrow> json option" where
  "recognise st e [] = (case e of End v \<Rightarrow> (if st = [] then Some v else None) | _ \<Rightarrow> None)"
| "recognise st e (t # ts) =
     (case step st e t of None \<Rightarrow> None | Some (st', e') \<Rightarrow> recognise st' e' ts)"

definition parseJson :: "string \<Rightarrow> json option" where
  "parseJson s = (case scan Idle s of None \<Rightarrow> None | Some ts \<Rightarrow> recognise [] Val ts)"

text \<open>Access by key and by index; a value that is not there is \<open>None\<close>.\<close>

definition member :: "string \<Rightarrow> json option \<Rightarrow> json option" where
  "member k v = (case v of Some (JObject ms) \<Rightarrow> map_of ms k | _ \<Rightarrow> None)"

definition element :: "nat \<Rightarrow> json option \<Rightarrow> json option" where
  "element i v =
     (case v of Some (JArray es) \<Rightarrow> (if i < length es then Some (es ! i) else None) | _ \<Rightarrow> None)"

text \<open>
  A text that can stand between double quotes as it is: it has no double quote, no
  backslash and no control character.
\<close>

definition jsonPlain :: "string \<Rightarrow> bool" where
  "jsonPlain s = list_all (\<lambda>c. c \<noteq> DQUOTE \<and> c \<noteq> BACKSLASH \<and> \<not> isControl c) s"

text \<open>
  Writing a value back as text, for \<open>as<String>()\<close> of a value that is not a string:
  ArduinoJson returns the text of a string as it is and the JSON text of any other
  value, \<open>null\<close> for one that is missing.
\<close>

definition escapeChar :: "char \<Rightarrow> string" where
  "escapeChar c =
     (if c = DQUOTE then [BACKSLASH, DQUOTE]
      else if c = BACKSLASH then [BACKSLASH, BACKSLASH]
      else if c = CHR 0x08 then [BACKSLASH, CHR ''b'']
      else if c = CHR 0x0C then [BACKSLASH, CHR ''f'']
      else if c = LF then [BACKSLASH, CHR ''n'']
      else if c = CR then [BACKSLASH, CHR ''r'']
      else if c = CHR 0x09 then [BACKSLASH, CHR ''t'']
      else [c])"

definition quoted :: "string \<Rightarrow> string" where
  "quoted s = DQUOTE # concat (map escapeChar s) @ [DQUOTE]"

fun commas :: "string list \<Rightarrow> string" where
  "commas [] = []"
| "commas [x] = x"
| "commas (x # y # zs) = x @ '','' @ commas (y # zs)"

fun serialize :: "json \<Rightarrow> string" where
  "serialize JNull = ''null''"
| "serialize (JBool b) = (if b then ''true'' else ''false'')"
| "serialize (JNumber n) = n"
| "serialize (JString s) = quoted s"
| "serialize (JArray es) = ''['' @ commas (map serialize es) @ '']''"
| "serialize (JObject ms) =
     ''{'' @ commas (map (\<lambda>(k, v). quoted k @ '':'' @ serialize v) ms) @ ''}''"

definition asString :: "json option \<Rightarrow> string" where
  "asString v = (case v of None \<Rightarrow> ''null'' | Some (JString s) \<Rightarrow> s | Some w \<Rightarrow> serialize w)"

text \<open>The library parameter of the transport, filled in with the reference reader.\<close>

definition referenceJson :: "json json_lib" where
  "referenceJson =
     \<lparr> deserializeJson = parseJson,
       choiceContent = (\<lambda>jsonDoc.
         asString (member ''content'' (member ''message'' (element 0 (member ''choices'' (Some jsonDoc)))))) \<rparr>"

section \<open>Sample networks and replies\<close>

text \<open>
  Networks for concrete runs: one that refuses the connection, one that accepts it and
  closes without sending a byte, and one that accepts it and delivers a given response
  in a single read, ten milliseconds after the request. \<open>httpOk\<close> puts a status line
  and a header in front of a body, \<open>chatReply\<close> is the document of a chat completion
  with the given content.
\<close>

definition refusing :: net where
  "refusing = \<lparr> connect_ok = False, now = 0, polls = [] \<rparr>"

definition silent :: net where
  "silent = \<lparr> connect_ok = True, now = 0, polls = [] \<rparr>"

definition replying :: "string \<Rightarrow> net" where
  "replying response =
     \<lparr> connect_ok = True, now = 1000,
       polls = [\<lparr> connected = True, millis = 1010, available = int (length response),
                  readString = response \<rparr>] \<rparr>"

definition httpOk :: "string \<Rightarrow> string" where
  "httpOk body =
     ''HTTP/1.1 200 OK'' @ CRLF @ ''Content-Type: application/json'' @ CRLF @ CRLF @ body"

definition chatReply :: "string \<Rightarrow> string" where
  \<open>chatReply content = ''{"choices":[{"message":{"content":"'' @ content @ ''"}}]}''\<close>

section \<open>Properties of the retry policy\<close>

lemma retryLoop_done:
  "\<not> i < maxRetries \<Longrightarrow> retryLoop J nets payload apiKey maxRetries i result = (result, [])"
  by (subst retryLoop.simps) simp

lemma retryLoop_final:
  assumes "i < maxRetries"
    and "fst (sendHttpRequest J (nets (nat i)) payload apiKey) \<noteq> ERROR_NETWORK"
    and "fst (sendHttpRequest J (nets (nat i)) payload apiKey) \<noteq> ERROR_TIMEOUT"
  shows "retryLoop J nets payload apiKey maxRetries i result =
           (fst (sendHttpRequest J (nets (nat i)) payload apiKey),
            [Invoke (snd (sendHttpRequest J (nets (nat i)) payload apiKey))])"
  using assms by (subst retryLoop.simps) (simp add: split_beta)

lemma retryLoop_again:
  assumes "i < maxRetries"
    and "fst (sendHttpRequest J (nets (nat i)) payload apiKey) = ERROR_NETWORK
         \<or> fst (sendHttpRequest J (nets (nat i)) payload apiKey) = ERROR_TIMEOUT"
  shows "retryLoop J nets payload apiKey maxRetries i result =
           (fst (retryLoop J nets payload apiKey maxRetries (i + 1)
                   (fst (sendHttpRequest J (nets (nat i)) payload apiKey))),
            Invoke (snd (sendHttpRequest J (nets (nat i)) payload apiKey))
              # (if i < maxRetries - 1 then [Sleep (1000 * (i + 1))] else [])
              @ snd (retryLoop J nets payload apiKey maxRetries (i + 1)
                   (fst (sendHttpRequest J (nets (nat i)) payload apiKey))))"
  using assms by (subst retryLoop.simps) (auto simp add: split_beta Let_def)

text \<open>
  When every attempt from index \<open>i\<close> on fails transiently, the loop runs to the end: it
  returns what the last attempt returned, after one invocation per remaining index and a
  pause of \<open>1000 * (j + 1)\<close> after every attempt \<open>j\<close> but the last.
\<close>

lemma retryLoop_all_transient:
  assumes "0 \<le> i" "i < maxRetries"
    and "\<And>j. i \<le> j \<Longrightarrow> j < maxRetries \<Longrightarrow>
           fst (sendHttpRequest J (nets (nat j)) payload apiKey) = ERROR_NETWORK
           \<or> fst (sendHttpRequest J (nets (nat j)) payload apiKey) = ERROR_TIMEOUT"
  shows "fst (retryLoop J nets payload apiKey maxRetries i result) =
           fst (sendHttpRequest J (nets (nat (maxRetries - 1))) payload apiKey)
         \<and> invocations (snd (retryLoop J nets payload apiKey maxRetries i result)) = nat (maxRetries - i)
         \<and> backoff (snd (retryLoop J nets payload apiKey maxRetries i result)) =
             map (\<lambda>j. 1000 * (j + 1)) [i..maxRetries - 2]"
  using assms
proof (induction "nat (maxRetries - i)" arbitrary: i result)
  case 0
  then show ?case by simp
next
  case (Suc n)
  let ?r = "fst (sendHttpRequest J (nets (nat i)) payload apiKey)"
  have tr: "?r = ERROR_NETWORK \<or> ?r = ERROR_TIMEOUT"
    using Suc.prems by simp
  have unf: "retryLoop J nets payload apiKey maxRetries i result =
           (fst (retryLoop J nets payload apiKey maxRetries (i + 1) ?r),
            Invoke (snd (sendHttpRequest J (nets (nat i)) payload apiKey))
              # (if i < maxRetries - 1 then [Sleep (1000 * (i + 1))] else [])
              @ snd (retryLoop J nets payload apiKey maxRetries (i + 1) ?r))"
    using Suc.prems(2) tr by (rule retryLoop_again)
  show ?case
  proof (cases "i + 1 < maxRetries")
    case True
    have n: "n = nat (maxRetries - (i + 1))" using Suc.hyps(2) by simp
    have IH: "fst (retryLoop J nets payload apiKey maxRetries (i + 1) ?r) =
           fst (sendHttpRequest J (nets (nat (maxRetries - 1))) payload apiKey)
         \<and> invocations (snd (retryLoop J nets payload apiKey maxRetries (i + 1) ?r)) = nat (maxRetries - (i + 1))
         \<and> backoff (snd (retryLoop J nets payload apiKey maxRetries (i + 1) ?r)) =
             map (\<lambda>j. 1000 * (j + 1)) [i + 1..maxRetries - 2]"
      using Suc.hyps(1) [OF n _ True] Suc.prems by simp
    have up: "[i..maxRetries - 2] = i # [i + 1..maxRetries - 2]"
      using True by (simp add: upto_rec1)
    show ?thesis
      using True IH Suc.prems by (simp add: unf up nat_diff_distrib Suc_nat_eq_nat_zadd1)
  next
    case False
    then have e: "i = maxRetries - 1" using Suc.prems by simp
    have d: "retryLoop J nets payload apiKey maxRetries (i + 1) ?r = (?r, [])"
      using False by (rule retryLoop_done)
    have a: "nat (maxRetries - i) = Suc 0" "[i..maxRetries - 2] = []" "\<not> i < maxRetries - 1"
      using e by simp_all
    have b: "nat (maxRetries - 1) = nat i" using e by simp
    show ?thesis unfolding unf d using a b by simp
  qed
qed

text \<open>
  C3. When the transport returns the network error code on the first and on the second
  attempt and a value that is neither the network nor the timeout code on the third,
  \<open>sendHttpRequestWithRetry\<close> with \<open>maxRetries = 3\<close> returns the value of the third
  attempt after exactly three invocations of the transport; it sleeps \<open>1000 * (0 + 1)\<close>
  milliseconds after the first attempt and \<open>1000 * (1 + 1)\<close> after the second, 3000 in
  total, and nothing else.
\<close>

theorem retry_two_failures_then_success:
  assumes "fst (sendHttpRequest J (nets 0) payload apiKey) = ERROR_NETWORK"
    and "fst (sendHttpRequest J (nets 1) payload apiKey) = ERROR_NETWORK"
    and "fst (sendHttpRequest J (nets 2) payload apiKey) \<noteq> ERROR_NETWORK"
    and "fst (sendHttpRequest J (nets 2) payload apiKey) \<noteq> ERROR_TIMEOUT"
  shows "fst (sendHttpRequestWithRetry J nets payload apiKey 3) =
           fst (sendHttpRequest J (nets 2) payload apiKey)
         \<and> invocations (snd (sendHttpRequestWithRetry J nets payload apiKey 3)) = 3
         \<and> backoff (snd (sendHttpRequestWithRetry J nets payload apiKey 3)) =
             [1000 * (0 + 1), 1000 * (1 + 1)]
         \<and> sum_list (backoff (snd (sendHttpRequestWithRetry J nets payload apiKey 3))) = 3000
         \<and> snd (sendHttpRequestWithRetry J nets payload apiKey 3) =
             [Invoke (snd (sendHttpRequest J (nets 0) payload apiKey)), Sleep 1000,
              Invoke (snd (sendHttpRequest J (nets 1) payload apiKey)), Sleep 2000,
              Invoke (snd (sendHttpRequest J (nets 2) payload apiKey))]"
proof -
  let ?r0 = "fst (sendHttpRequest J (nets 0) payload apiKey)"
  let ?r1 = "fst (sendHttpRequest J (nets 1) payload apiKey)"
  have third: "retryLoop J nets payload apiKey 3 2 ?r1 =
      (fst (sendHttpRequest J (nets 2) payload apiKey),
       [Invoke (snd (sendHttpRequest J (nets 2) payload apiKey))])"
    using retryLoop_final [of 2 3 J nets payload apiKey ?r1] assms(3,4) by simp
  have second: "retryLoop J nets payload apiKey 3 1 ?r0 =
      (fst (sendHttpRequest J (nets 2) payload apiKey),
       [Invoke (snd (sendHttpRequest J (nets 1) payload apiKey)), Sleep 2000,
        Invoke (snd (sendHttpRequest J (nets 2) payload apiKey))])"
    using retryLoop_again [of 1 3 J nets payload apiKey ?r0] assms(2) third by simp
  have first: "retryLoop J nets payload apiKey 3 0 [] =
      (fst (sendHttpRequest J (nets 2) payload apiKey),
       [Invoke (snd (sendHttpRequest J (nets 0) payload apiKey)), Sleep 1000,
        Invoke (snd (sendHttpRequest J (nets 1) payload apiKey)), Sleep 2000,
        Invoke (snd (sendHttpRequest J (nets 2) payload apiKey))])"
    using retryLoop_again [of 0 3 J nets payload apiKey "[]"] assms(1) second by simp
  show ?thesis
    by (simp add: sendHttpRequestWithRetry_def first)
qed

theorem retry_two_failures_then_success_witness:
  "fst (sendHttpRequest referenceJson refusing ''{}'' (Some ''key'')) = ERROR_NETWORK
   \<and> fst (sendHttpRequest referenceJson (replying (httpOk (chatReply ''hello''))) ''{}'' (Some ''key''))
       \<notin> {ERROR_NETWORK, ERROR_TIMEOUT}
   \<and> fst (sendHttpRequestWithRetry referenceJson
          (\<lambda>i. if i < 2 then refusing else replying (httpOk (chatReply ''hello'')))
          ''{}'' (Some ''key'') 3) = ''hello''
   \<and> invocations (snd (sendHttpRequestWithRetry referenceJson
          (\<lambda>i. if i < 2 then refusing else replying (httpOk (chatReply ''hello'')))
          ''{}'' (Some ''key'') 3)) = 3
   \<and> sum_list (backoff (snd (sendHttpRequestWithRetry referenceJson
          (\<lambda>i. if i < 2 then refusing else replying (httpOk (chatReply ''hello'')))
          ''{}'' (Some ''key'') 3))) = 3000"
proof -
  let ?nets = "\<lambda>i::nat. if i < 2 then refusing else replying (httpOk (chatReply ''hello''))"
  have ok: "fst (sendHttpRequest referenceJson (replying (httpOk (chatReply ''hello''))) ''{}''
              (Some ''key'')) = ''hello''"
    by code_simp
  have no: "fst (sendHttpRequest referenceJson refusing ''{}'' (Some ''key'')) = ERROR_NETWORK"
    by code_simp
  have ne: "''hello'' \<noteq> ERROR_NETWORK" "''hello'' \<noteq> ERROR_TIMEOUT"
    by (simp_all add: ERROR_NETWORK_def ERROR_TIMEOUT_def)
  show ?thesis
    using retry_two_failures_then_success [of referenceJson ?nets "''{}''" "Some ''key''"] ok no ne
    by simp
qed

text \<open>
  C4. Whatever the later attempts would return: when \<open>maxRetries\<close> allows a first attempt
  and that attempt returns the parse error code, or any value that is neither the
  network nor the timeout code (a success), \<open>sendHttpRequestWithRetry\<close> returns that
  value at once. The transport is invoked exactly once and the policy does not sleep.
\<close>

theorem retry_stops_at_first_terminal_outcome:
  assumes "0 < maxRetries"
    and "fst (sendHttpRequest J (nets 0) payload apiKey) = ERROR_JSON_PARSE
         \<or> fst (sendHttpRequest J (nets 0) payload apiKey) \<notin> {ERROR_NETWORK, ERROR_TIMEOUT}"
  shows "fst (sendHttpRequestWithRetry J nets payload apiKey maxRetries) =
           fst (sendHttpRequest J (nets 0) payload apiKey)
         \<and> snd (sendHttpRequestWithRetry J nets payload apiKey maxRetries) =
             [Invoke (snd (sendHttpRequest J (nets 0) payload apiKey))]
         \<and> invocations (snd (sendHttpRequestWithRetry J nets payload apiKey maxRetries)) = 1
         \<and> backoff (snd (sendHttpRequestWithRetry J nets payload apiKey maxRetries)) = []
         \<and> sum_list (backoff (snd (sendHttpRequestWithRetry J nets payload apiKey maxRetries))) = 0"
proof -
  have "ERROR_JSON_PARSE \<notin> {ERROR_NETWORK, ERROR_TIMEOUT}"
    by (simp add: ERROR_JSON_PARSE_def ERROR_NETWORK_def ERROR_TIMEOUT_def)
  with assms(2) have
    "fst (sendHttpRequest J (nets (nat 0)) payload apiKey) \<noteq> ERROR_NETWORK"
    "fst (sendHttpRequest J (nets (nat 0)) payload apiKey) \<noteq> ERROR_TIMEOUT"
    by auto
  with assms(1) have "retryLoop J nets payload apiKey maxRetries 0 [] =
      (fst (sendHttpRequest J (nets (nat 0)) payload apiKey),
       [Invoke (snd (sendHttpRequest J (nets (nat 0)) payload apiKey))])"
    by (rule retryLoop_final)
  then show ?thesis
    by (simp add: sendHttpRequestWithRetry_def)
qed

theorem retry_stops_at_first_terminal_outcome_witness:
  "(0::int) < 3
   \<and> fst (sendHttpRequest referenceJson (replying (httpOk ''not json'')) ''{}'' (Some ''key''))
       = ERROR_JSON_PARSE
   \<and> fst (sendHttpRequestWithRetry referenceJson (\<lambda>i. replying (httpOk ''not json''))
          ''{}'' (Some ''key'') 3) = ERROR_JSON_PARSE
   \<and> invocations (snd (sendHttpRequestWithRetry referenceJson (\<lambda>i. replying (httpOk ''not json''))
          ''{}'' (Some ''key'') 3)) = 1
   \<and> backoff (snd (sendHttpRequestWithRetry referenceJson (\<lambda>i. replying (httpOk ''not json''))
          ''{}'' (Some ''key'') 3)) = []"
proof -
  have bad: "fst (sendHttpRequest referenceJson (replying (httpOk ''not json'')) ''{}''
               (Some ''key'')) = ERROR_JSON_PARSE"
    by code_simp
  show ?thesis
    using retry_stops_at_first_terminal_outcome
            [of 3 referenceJson "\<lambda>i. replying (httpOk ''not json'')" "''{}''" "Some ''key''"] bad
    by simp
qed

text \<open>
  C5. When \<open>maxRetries\<close> is positive and every one of the \<open>maxRetries\<close> attempts returns
  the network or the timeout code, \<open>sendHttpRequestWithRetry\<close> returns what the last
  attempt returned, unchanged, after \<open>maxRetries\<close> invocations: the result is again the
  network or the timeout code and no other value marks the exhaustion, so it is the
  value a single failing attempt would give.
\<close>

theorem retry_exhausted_returns_last_failure:
  assumes "0 < maxRetries"
    and "\<forall>n < nat maxRetries.
           fst (sendHttpRequest J (nets n) payload apiKey) = ERROR_NETWORK
           \<or> fst (sendHttpRequest J (nets n) payload apiKey) = ERROR_TIMEOUT"
  shows "fst (sendHttpRequestWithRetry J nets payload apiKey maxRetries) =
           fst (sendHttpRequest J (nets (nat (maxRetries - 1))) payload apiKey)
         \<and> fst (sendHttpRequestWithRetry J nets payload apiKey maxRetries)
             \<in> {ERROR_NETWORK, ERROR_TIMEOUT}
         \<and> invocations (snd (sendHttpRequestWithRetry J nets payload apiKey maxRetries)) =
             nat maxRetries"
proof -
  have each: "fst (sendHttpRequest J (nets (nat j)) payload apiKey) = ERROR_NETWORK
           \<or> fst (sendHttpRequest J (nets (nat j)) payload apiKey) = ERROR_TIMEOUT"
    if "0 \<le> j" "j < maxRetries" for j
    using assms(2) that by (simp add: nat_less_iff)
  have run: "fst (retryLoop J nets payload apiKey maxRetries 0 []) =
           fst (sendHttpRequest J (nets (nat (maxRetries - 1))) payload apiKey)
         \<and> invocations (snd (retryLoop J nets payload apiKey maxRetries 0 [])) = nat (maxRetries - 0)
         \<and> backoff (snd (retryLoop J nets payload apiKey maxRetries 0 [])) =
             map (\<lambda>j. 1000 * (j + 1)) [0..maxRetries - 2]"
    using assms(1) each by (intro retryLoop_all_transient) simp_all
  have last: "fst (sendHttpRequest J (nets (nat (maxRetries - 1))) payload apiKey) = ERROR_NETWORK
           \<or> fst (sendHttpRequest J (nets (nat (maxRetries - 1))) payload apiKey) = ERROR_TIMEOUT"
    using each [of "maxRetries - 1"] assms(1) by simp
  show ?thesis
    using run last by (auto simp add: sendHttpRequestWithRetry_def)
qed

theorem retry_exhausted_returns_last_failure_witness:
  "(0::int) < 3
   \<and> fst (sendHttpRequest referenceJson refusing ''{}'' (Some ''key'')) = ERROR_NETWORK
   \<and> fst (sendHttpRequest referenceJson silent ''{}'' (Some ''key'')) = ERROR_TIMEOUT
   \<and> fst (sendHttpRequestWithRetry referenceJson (\<lambda>n. if n = 2 then silent else refusing)
          ''{}'' (Some ''key'') 3) = ERROR_TIMEOUT
   \<and> invocations (snd (sendHttpRequestWithRetry referenceJson
          (\<lambda>n. if n = 2 then silent else refusing) ''{}'' (Some ''key'') 3)) = 3"
proof -
  have a: "fst (sendHttpRequest referenceJson refusing ''{}'' (Some ''key'')) = ERROR_NETWORK"
    by code_simp
  have b: "fst (sendHttpRequest referenceJson silent ''{}'' (Some ''key'')) = ERROR_TIMEOUT"
    by code_simp
  have all: "\<forall>n < nat 3. fst (sendHttpRequest referenceJson
                 ((\<lambda>n. if n = 2 then silent else refusing) n) ''{}'' (Some ''key'')) = ERROR_NETWORK
               \<or> fst (sendHttpRequest referenceJson
                 ((\<lambda>n. if n = 2 then silent else refusing) n) ''{}'' (Some ''key'')) = ERROR_TIMEOUT"
    using a b by simp
  show ?thesis
    using retry_exhausted_returns_last_failure
            [of 3 referenceJson "\<lambda>n. if n = 2 then silent else refusing" "''{}''" "Some ''key''"]
          all a b
    by simp
qed

text \<open>
  C10. With \<open>maxRetries \<le> 0\<close> the loop body never runs: \<open>sendHttpRequestWithRetry\<close>
  invokes the transport zero times, for every payload and credential, and returns the
  empty string of the default-constructed \<open>result\<close>. No call of the transport produced
  that value, and it is none of the six error codes.
\<close>

theorem retry_without_attempts_returns_empty:
  assumes "maxRetries \<le> 0"
  shows "fst (sendHttpRequestWithRetry J nets payload apiKey maxRetries) = []
         \<and> snd (sendHttpRequestWithRetry J nets payload apiKey maxRetries) = []
         \<and> invocations (snd (sendHttpRequestWithRetry J nets payload apiKey maxRetries)) = 0
         \<and> fst (sendHttpRequestWithRetry J nets payload apiKey maxRetries)
             \<notin> {ERROR_NETWORK, ERROR_CAMERA, ERROR_IMAGE_TOO_LARGE, ERROR_INVALID_INPUT,
                 ERROR_JSON_PARSE, ERROR_TIMEOUT}"
proof -
  have "retryLoop J nets payload apiKey maxRetries 0 [] = ([], [])"
    using assms by (intro retryLoop_done) simp
  then show ?thesis
    by (simp add: sendHttpRequestWithRetry_def ERROR_NETWORK_def ERROR_CAMERA_def
          ERROR_IMAGE_TOO_LARGE_def ERROR_INVALID_INPUT_def ERROR_JSON_PARSE_def ERROR_TIMEOUT_def)
qed

theorem retry_without_attempts_returns_empty_witness:
  "(0::int) \<le> 0
   \<and> sendHttpRequestWithRetry referenceJson (\<lambda>n. replying (httpOk (chatReply ''hello'')))
        ''{}'' (Some ''key'') 0 = ([], [])
   \<and> sendHttpRequestWithRetry referenceJson (\<lambda>n. replying (httpOk (chatReply ''hello'')))
        ''{}'' (Some ''key'') (- 1) = ([], [])"
  using retry_without_attempts_returns_empty
          [of 0 referenceJson "\<lambda>n. replying (httpOk (chatReply ''hello''))" "''{}''" "Some ''key''"]
        retry_without_attempts_returns_empty
          [of "- 1" referenceJson "\<lambda>n. replying (httpOk (chatReply ''hello''))" "''{}''" "Some ''key''"]
  by (simp add: prod_eq_iff)

section \<open>Properties of the chunked writer\<close>

lemma substring_within:
  "l \<le> r \<Longrightarrow> r \<le> length s \<Longrightarrow> l < length s \<Longrightarrow> substring s l r = take (r - l) (drop l s)"
  by (simp add: substring_def Let_def)

text \<open>One iteration of the chunk loop.\<close>

lemma chunkLoop_step:
  assumes "0 \<le> sent" "sent < int (length payload)"
  shows "chunkLoop payload (int (length payload)) sent =
           [Print (hexString (nat (min chunkSize (int (length payload) - sent))) @ CRLF),
            Print (take (nat (min chunkSize (int (length payload) - sent))) (drop (nat sent) payload)),
            Print CRLF, Delay 5]
           @ chunkLoop payload (int (length payload))
               (sent + min chunkSize (int (length payload) - sent))"
proof -
  define k where "k = min chunkSize (int (length payload) - sent)"
  have k: "0 < k" "sent + k \<le> int (length payload)"
    using assms by (auto simp: k_def chunkSize_def)
  have "substring payload (nat sent) (nat (sent + k)) = take (nat (sent + k) - nat sent) (drop (nat sent) payload)"
    using assms k by (intro substring_within) auto
  also have "nat (sent + k) - nat sent = nat k"
    using assms k by simp
  finally have sub: "substring payload (nat sent) (nat (sent + k)) = take (nat k) (drop (nat sent) payload)" .
  show ?thesis
    using assms sub by (subst chunkLoop.simps) (simp add: Let_def k_def)
qed

lemma chunkLoop_end:
  "\<not> sent < totalLength \<Longrightarrow> chunkLoop payload totalLength sent = []"
  by (subst chunkLoop.simps) simp

lemma chunkBodies_chunkLoop:
  assumes "0 \<le> sent" "sent \<le> int (length payload)"
  shows "concat (chunkBodies (chunkLoop payload (int (length payload)) sent)) = drop (nat sent) payload"
  using assms
proof (induction "nat (int (length payload) - sent)" arbitrary: sent rule: less_induct)
  case less
  show ?case
  proof (cases "sent < int (length payload)")
    case False
    with less.prems show ?thesis by (simp add: chunkLoop_end)
  next
    case True
    define k where "k = min chunkSize (int (length payload) - sent)"
    have k: "0 < k" "sent + k \<le> int (length payload)"
      using True by (auto simp: k_def chunkSize_def)
    have IH: "concat (chunkBodies (chunkLoop payload (int (length payload)) (sent + k))) =
                drop (nat (sent + k)) payload"
      using less.prems k by (intro less.hyps) auto
    have d: "drop (nat (sent + k)) payload = drop (nat k) (drop (nat sent) payload)"
      using less.prems k by (simp add: nat_add_distrib add.commute)
    have "concat (chunkBodies (chunkLoop payload (int (length payload)) sent)) =
            take (nat k) (drop (nat sent) payload) @ drop (nat k) (drop (nat sent) payload)"
      unfolding chunkLoop_step [OF less.prems(1) True] k_def [symmetric]
      using IH d by simp
    then show ?thesis by (simp only: append_take_drop_id)
  qed
qed

lemma chunk_sizes_chunkLoop:
  assumes "0 \<le> sent" "sent \<le> int (length payload)"
  shows "map length (chunkBodies (chunkLoop payload (int (length payload)) sent)) =
           map (\<lambda>i. min 4096 (length payload - nat sent - 4096 * i))
               [0 ..< length (chunkBodies (chunkLoop payload (int (length payload)) sent))]"
  using assms
proof (induction "nat (int (length payload) - sent)" arbitrary: sent rule: less_induct)
  case less
  show ?case
  proof (cases "sent < int (length payload)")
    case False
    with less.prems show ?thesis by (simp add: chunkLoop_end)
  next
    case True
    define k where "k = min chunkSize (int (length payload) - sent)"
    have k: "0 < k" "sent + k \<le> int (length payload)"
      using True by (auto simp: k_def chunkSize_def)
    let ?rest = "chunkBodies (chunkLoop payload (int (length payload)) (sent + k))"
    have IH: "map length ?rest =
                map (\<lambda>i. min 4096 (length payload - nat (sent + k) - 4096 * i)) [0 ..< length ?rest]"
      using less.prems k by (intro less.hyps) auto
    have bodies: "chunkBodies (chunkLoop payload (int (length payload)) sent) =
            take (nat k) (drop (nat sent) payload) # ?rest"
      unfolding chunkLoop_step [OF less.prems(1) True] k_def [symmetric] by simp
    have first: "length (take (nat k) (drop (nat sent) payload)) = min 4096 (length payload - nat sent)"
      using less.prems True by (auto simp: k_def chunkSize_def min_def)
    have shift: "min 4096 (length payload - nat (sent + k) - 4096 * i) =
                 min 4096 (length payload - nat sent - 4096 * Suc i)" if "i < length ?rest" for i
    proof (cases "k = 4096")
      case True
      then show ?thesis using less.prems by (simp add: nat_add_distrib)
    next
      case False
      then have "sent + k = int (length payload)"
        using \<open>sent < int (length payload)\<close> by (auto simp: k_def chunkSize_def min_def split: if_splits)
      then have "chunkLoop payload (int (length payload)) (sent + k) = []"
        by (simp add: chunkLoop_end)
      with that show ?thesis by simp
    qed
    have "map length (chunkBodies (chunkLoop payload (int (length payload)) sent)) =
            min 4096 (length payload - nat sent)
            # map (\<lambda>i. min 4096 (length payload - nat sent - 4096 * Suc i)) [0 ..< length ?rest]"
      unfolding bodies using first IH shift by simp
    also have "\<dots> = map (\<lambda>i. min 4096 (length payload - nat sent - 4096 * i)) [0 ..< Suc (length ?rest)]"
      by (simp add: upt_conv_Cons map_Suc_upt [symmetric] del: upt_Suc)
    finally show ?thesis by (simp add: bodies)
  qed
qed



text \<open>Every header announces the length of the body that follows it, in hexadecimal.\<close>

lemma chunkHeaders_chunkLoop:
  assumes "0 \<le> sent" "sent \<le> int (length payload)"
  shows "chunkHeaders (chunkLoop payload (int (length payload)) sent) =
           map (\<lambda>c. hexString (length c) @ CRLF)
               (chunkBodies (chunkLoop payload (int (length payload)) sent))"
  using assms
proof (induction "nat (int (length payload) - sent)" arbitrary: sent rule: less_induct)
  case less
  show ?case
  proof (cases "sent < int (length payload)")
    case False
    with less.prems show ?thesis by (simp add: chunkLoop_end)
  next
    case True
    define k where "k = min chunkSize (int (length payload) - sent)"
    have k: "0 < k" "sent + k \<le> int (length payload)"
      using True by (auto simp: k_def chunkSize_def)
    have IH: "chunkHeaders (chunkLoop payload (int (length payload)) (sent + k)) =
           map (\<lambda>c. hexString (length c) @ CRLF)
               (chunkBodies (chunkLoop payload (int (length payload)) (sent + k)))"
      using less.prems k by (intro less.hyps) auto
    have len: "length (take (nat k) (drop (nat sent) payload)) = nat k"
      using less.prems k by auto
    show ?thesis
      unfolding chunkLoop_step [OF less.prems(1) True] k_def [symmetric]
      using IH len by simp
  qed
qed

lemma hexString_4096: "hexString 4096 = ''1000''"
  by (simp add: hexString.simps hexDigit_def)

lemma chunkLoop_short:
  assumes "0 < length payload" "length payload < 4096"
  shows "chunkLoop payload (int (length payload)) 0 =
           [Print (hexString (length payload) @ CRLF), Print payload, Print CRLF, Delay 5]"
proof -
  have m: "min chunkSize (int (length payload)) = int (length payload)"
    using assms by (simp add: chunkSize_def)
  have "chunkLoop payload (int (length payload)) 0 =
           [Print (hexString (nat (min chunkSize (int (length payload) - 0))) @ CRLF),
            Print (take (nat (min chunkSize (int (length payload) - 0))) (drop (nat 0) payload)),
            Print CRLF, Delay 5]
           @ chunkLoop payload (int (length payload))
               (0 + min chunkSize (int (length payload) - 0))"
    using assms by (intro chunkLoop_step) simp_all
  moreover have "chunkLoop payload (int (length payload)) (int (length payload)) = []"
    by (rule chunkLoop_end) simp
  ultimately show ?thesis
    by (simp add: m)
qed

lemma chunkLoop_last_full:
  assumes "0 \<le> sent" "sent < int (length payload)"
    and "(int (length payload) - sent) mod 4096 = 0"
  shows "last (chunkBodies (chunkLoop payload (int (length payload)) sent)) =
           drop (length payload - 4096) payload
         \<and> drop (length (chunkLoop payload (int (length payload)) sent) - 4)
                 (chunkLoop payload (int (length payload)) sent) =
             [Print (hexString 4096 @ CRLF), Print (drop (length payload - 4096) payload),
              Print CRLF, Delay 5]"
  using assms
proof (induction "nat (int (length payload) - sent)" arbitrary: sent rule: less_induct)
  case less
  have big: "4096 \<le> int (length payload) - sent"
  proof -
    have "(4096::int) dvd int (length payload) - sent"
      using less.prems(3) by (simp add: dvd_eq_mod_eq_0)
    moreover have "0 < int (length payload) - sent"
      using less.prems by simp
    ultimately show ?thesis
      by (rule zdvd_imp_le)
  qed
  then have k: "min chunkSize (int (length payload) - sent) = 4096"
    by (simp add: chunkSize_def)
  note step = chunkLoop_step [OF less.prems(1,2), unfolded k]
  show ?case
  proof (cases "sent + 4096 < int (length payload)")
    case False
    then have e: "sent + 4096 = int (length payload)" using big by simp
    then have n: "nat sent = length payload - 4096" by linarith
    have rest: "chunkLoop payload (int (length payload)) (sent + 4096) = []"
      using False by (rule chunkLoop_end)
    have t: "take 4096 (drop (length payload - 4096) payload) = drop (length payload - 4096) payload"
      by simp
    show ?thesis
      unfolding step rest n by (simp add: t)
  next
    case True
    have IH: "last (chunkBodies (chunkLoop payload (int (length payload)) (sent + 4096))) =
           drop (length payload - 4096) payload
         \<and> drop (length (chunkLoop payload (int (length payload)) (sent + 4096)) - 4)
                 (chunkLoop payload (int (length payload)) (sent + 4096)) =
             [Print (hexString 4096 @ CRLF), Print (drop (length payload - 4096) payload),
              Print CRLF, Delay 5]"
    proof (intro less.hyps)
      show "nat (int (length payload) - (sent + 4096)) < nat (int (length payload) - sent)"
        using True by simp
      show "0 \<le> sent + 4096" using less.prems by simp
      show "sent + 4096 < int (length payload)" by (rule True)
      have "int (length payload) - (sent + 4096) = (int (length payload) - sent) - 4096"
        by simp
      then show "(int (length payload) - (sent + 4096)) mod 4096 = 0"
        using less.prems(3) by (simp only: minus_mod_self2)
    qed
    have next_step: "chunkLoop payload (int (length payload)) (sent + 4096) =
           [Print (hexString (nat (min chunkSize (int (length payload) - (sent + 4096)))) @ CRLF),
            Print (take (nat (min chunkSize (int (length payload) - (sent + 4096))))
                     (drop (nat (sent + 4096)) payload)),
            Print CRLF, Delay 5]
           @ chunkLoop payload (int (length payload))
               (sent + 4096 + min chunkSize (int (length payload) - (sent + 4096)))"
      using less.prems True by (intro chunkLoop_step) auto
    have ne: "chunkBodies (chunkLoop payload (int (length payload)) (sent + 4096)) \<noteq> []"
      by (subst next_step) simp
    have len: "4 \<le> length (chunkLoop payload (int (length payload)) (sent + 4096))"
      by (subst next_step) simp
    have tail: "drop (length (A @ R) - 4) (A @ R) = drop (length R - 4) R"
      if "4 \<le> length R" for A R :: "event list"
    proof -
      have "length (A @ R) - 4 = length A + (length R - 4)"
        using that by simp
      then show ?thesis by (simp only: drop_append) simp
    qed
    show ?thesis
      unfolding step tail [OF len] using IH ne by simp
  qed
qed

text \<open>
  C1. For every payload, the bodies of the data chunks that the chunk loop writes, taken
  in the order of transmission, concatenate to the payload; their lengths add up to
  the length of the payload; and the chunk with index \<open>i\<close> has
  \<open>min 4096 (length payload - 4096 * i)\<close> bytes, the smaller of the chunk size and what
  remained to be sent. Nothing is cut off and nothing is sent twice.
\<close>

theorem chunks_cover_payload:
  "concat (chunkBodies (chunkLoop payload (int (length payload)) 0)) = payload
   \<and> sum_list (map length (chunkBodies (chunkLoop payload (int (length payload)) 0))) =
       length payload
   \<and> map length (chunkBodies (chunkLoop payload (int (length payload)) 0)) =
       map (\<lambda>i. min 4096 (length payload - 4096 * i))
           [0 ..< length (chunkBodies (chunkLoop payload (int (length payload)) 0))]"
proof -
  have whole: "concat (chunkBodies (chunkLoop payload (int (length payload)) 0)) = payload"
    using chunkBodies_chunkLoop [of 0 payload] by simp
  have "sum_list (map length (chunkBodies (chunkLoop payload (int (length payload)) 0))) =
          length (concat (chunkBodies (chunkLoop payload (int (length payload)) 0)))"
    by (simp add: length_concat)
  then have total: "sum_list (map length (chunkBodies (chunkLoop payload (int (length payload)) 0))) =
          length payload"
    by (simp only: whole)
  have sizes: "map length (chunkBodies (chunkLoop payload (int (length payload)) 0)) =
       map (\<lambda>i. min 4096 (length payload - 4096 * i))
           [0 ..< length (chunkBodies (chunkLoop payload (int (length payload)) 0))]"
    using chunk_sizes_chunkLoop [of 0 payload] by simp
  from whole total sizes show ?thesis by (intro conjI)
qed

theorem chunks_cover_payload_witness:
  "concat (chunkBodies (chunkLoop ''hello'' 5 0)) = ''hello''
   \<and> sum_list (map length (chunkBodies (chunkLoop ''hello'' 5 0))) = 5"
  using chunks_cover_payload [of "''hello''", THEN conjunct1]
        chunks_cover_payload [of "''hello''", THEN conjunct2, THEN conjunct1]
  by simp

text \<open>
  C2. A payload that is not empty and shorter than 4096 bytes is written as exactly
  one data chunk, the payload itself, between the request head and the terminating
  chunk. When the length of the payload is a positive multiple of 4096, the last data
  chunk has exactly 4096 bytes (the last 4096 bytes of the payload, announced as
  \<open>1000\<close> in hexadecimal) and the write that follows it is the terminating zero-length
  chunk \<open>0 CRLF CRLF\<close>, the last write of the request.
\<close>

theorem chunk_boundaries:
  "(0 < length payload \<and> length payload < 4096 \<longrightarrow>
      chunkBodies (chunkLoop payload (int (length payload)) 0) = [payload]
      \<and> length (chunkBodies (chunkLoop payload (int (length payload)) 0)) = 1
      \<and> sendRequest payload apiKey =
          [Print (requestHead apiKey),
           Print (hexString (length payload) @ CRLF), Print payload, Print CRLF, Delay 5,
           Print lastChunk])
   \<and> (0 < length payload \<and> length payload mod 4096 = 0 \<longrightarrow>
      length (last (chunkBodies (chunkLoop payload (int (length payload)) 0))) = 4096
      \<and> drop (length (sendRequest payload apiKey) - 5) (sendRequest payload apiKey) =
          [Print (''1000'' @ CRLF), Print (drop (length payload - 4096) payload), Print CRLF,
           Delay 5, Print lastChunk]
      \<and> lastChunk = ''0'' @ CRLF @ CRLF)"
proof (intro conjI impI)
  assume short: "0 < length payload \<and> length payload < 4096"
  then have one: "chunkLoop payload (int (length payload)) 0 =
      [Print (hexString (length payload) @ CRLF), Print payload, Print CRLF, Delay 5]"
    by (intro chunkLoop_short) simp_all
  show "chunkBodies (chunkLoop payload (int (length payload)) 0) = [payload]"
    by (simp add: one)
  show "length (chunkBodies (chunkLoop payload (int (length payload)) 0)) = 1"
    by (simp add: one)
  show "sendRequest payload apiKey =
          [Print (requestHead apiKey),
           Print (hexString (length payload) @ CRLF), Print payload, Print CRLF, Delay 5,
           Print lastChunk]"
    by (simp add: sendRequest_def one)
next
  assume full: "0 < length payload \<and> length payload mod 4096 = 0"
  then have "int (length payload mod 4096) = 0"
    by simp
  then have m: "(int (length payload) - 0) mod 4096 = 0"
    by (simp add: zmod_int)
  have big: "4096 \<le> length payload"
    using full by (auto elim: dvd_imp_le [rotated] simp: dvd_eq_mod_eq_0 [symmetric] intro: dvd_imp_le)
  have fin: "last (chunkBodies (chunkLoop payload (int (length payload)) 0)) =
           drop (length payload - 4096) payload
         \<and> drop (length (chunkLoop payload (int (length payload)) 0) - 4)
                 (chunkLoop payload (int (length payload)) 0) =
             [Print (hexString 4096 @ CRLF), Print (drop (length payload - 4096) payload),
              Print CRLF, Delay 5]"
    using full m by (intro chunkLoop_last_full) simp_all
  show "length (last (chunkBodies (chunkLoop payload (int (length payload)) 0))) = 4096"
    using fin big by simp
  have len: "4 \<le> length (chunkLoop payload (int (length payload)) 0)"
  proof (rule ccontr)
    assume "\<not> 4 \<le> length (chunkLoop payload (int (length payload)) 0)"
    then have "length (drop (length (chunkLoop payload (int (length payload)) 0) - 4)
                 (chunkLoop payload (int (length payload)) 0)) < 4"
      by simp
    with fin show False by simp
  qed
  define L where "L = chunkLoop payload (int (length payload)) 0"
  have "drop (length (Print (requestHead apiKey) # L @ [Print lastChunk]) - 5)
          (Print (requestHead apiKey) # L @ [Print lastChunk]) =
        drop (length L - 4) L @ [Print lastChunk]"
    using len by (simp add: L_def [symmetric] Suc_diff_le drop_Cons')
  then show "drop (length (sendRequest payload apiKey) - 5) (sendRequest payload apiKey) =
          [Print (''1000'' @ CRLF), Print (drop (length payload - 4096) payload), Print CRLF,
           Delay 5, Print lastChunk]"
    using fin by (simp add: sendRequest_def L_def hexString_4096)
  show "lastChunk = ''0'' @ CRLF @ CRLF"
    by (simp add: lastChunk_def)
qed

theorem chunk_boundaries_witness:
  "0 < length ''hello'' \<and> length ''hello'' < 4096
   \<and> chunkBodies (chunkLoop ''hello'' (int (length ''hello'')) 0) = [''hello'']
   \<and> 0 < length (replicate 8192 (CHR ''a'')) \<and> length (replicate 8192 (CHR ''a'')) mod 4096 = 0
   \<and> length (last (chunkBodies (chunkLoop (replicate 8192 (CHR ''a''))
                (int (length (replicate 8192 (CHR ''a'')))) 0))) = 4096"
  using chunk_boundaries [of "''hello''"] chunk_boundaries [of "replicate 8192 (CHR ''a'')"]
  by simp

section \<open>Properties of the separation of header and body\<close>

lemma all_le_Suc_split: "(\<forall>j \<le> Suc n. P j) = (P 0 \<and> (\<forall>j \<le> n. P (Suc j)))"
proof
  assume a: "\<forall>j \<le> Suc n. P j"
  then show "P 0 \<and> (\<forall>j \<le> n. P (Suc j))" by simp
next
  assume b: "P 0 \<and> (\<forall>j \<le> n. P (Suc j))"
  show "\<forall>j \<le> Suc n. P j"
  proof (intro allI impI)
    fix j assume "j \<le> Suc n"
    then show "P j" using b by (cases j) simp_all
  qed
qed

text \<open>
  What \<open>indexOf\<close> returns: \<open>-1\<close> exactly when the pattern occurs at no position, and
  the first position at which it occurs otherwise.
\<close>

lemma indexOfFrom_none:
  "0 \<le> i \<Longrightarrow>
   (indexOfFrom pat s i = -1) = (\<forall>j \<le> length s. take (length pat) (drop j s) \<noteq> pat)"
proof (induction s arbitrary: i)
  case Nil
  then show ?case by auto
next
  case (Cons c cs)
  have IH: "(indexOfFrom pat cs (i + 1) = -1) =
              (\<forall>j \<le> length cs. take (length pat) (drop j cs) \<noteq> pat)"
    using Cons.prems by (intro Cons.IH) simp
  show ?case
    using Cons.prems IH by (simp add: all_le_Suc_split)
qed

lemma indexOfFrom_first:
  assumes "take (length pat) (drop k s) = pat" "k \<le> length s"
    and "\<forall>j < k. take (length pat) (drop j s) \<noteq> pat"
  shows "indexOfFrom pat s i = i + int k"
  using assms
proof (induction s arbitrary: i k)
  case Nil
  then show ?case by auto
next
  case (Cons c cs)
  show ?case
  proof (cases k)
    case 0
    with Cons.prems show ?thesis by simp
  next
    case (Suc k')
    have here: "take (length pat) (c # cs) \<noteq> pat"
      using Cons.prems(3) Suc by (metis drop0 zero_less_Suc)
    have later: "\<forall>j < k'. take (length pat) (drop j cs) \<noteq> pat"
    proof (intro allI impI)
      fix j assume "j < k'"
      then have "Suc j < k" using Suc by simp
      with Cons.prems(3) have "take (length pat) (drop (Suc j) (c # cs)) \<noteq> pat" by blast
      then show "take (length pat) (drop j cs) \<noteq> pat" by simp
    qed
    have "indexOfFrom pat cs (i + 1) = (i + 1) + int k'"
      using Cons.prems Suc later by (intro Cons.IH) simp_all
    with here Suc show ?thesis by simp
  qed
qed

lemma length_CRLF: "length CRLF = 2"
  by (simp add: CRLF_def)

lemma length_CRLFCRLF: "length (CRLF @ CRLF) = 4"
  by (simp add: CRLF_def)

lemma extractBody_no_boundary:
  assumes "\<forall>j \<le> length response. take 4 (drop j response) \<noteq> CRLF @ CRLF"
  shows "extractBody response = response"
proof -
  have "indexOf response (CRLF @ CRLF) = -1"
    using assms by (simp add: indexOf_def indexOfFrom_none length_CRLF)
  then show ?thesis by (simp add: extractBody_def)
qed

lemma extractBody_boundary_inside:
  assumes "take 4 (drop k response) = CRLF @ CRLF"
    and "\<forall>j < k. take 4 (drop j response) \<noteq> CRLF @ CRLF"
    and "0 < k"
  shows "extractBody response = drop (k + 4) response"
proof -
  have "length (take 4 (drop k response)) = 4"
    using assms(1) by (simp only: length_CRLFCRLF)
  then have len: "k + 4 \<le> length response" by simp
  have "indexOfFrom (CRLF @ CRLF) response 0 = 0 + int k"
    using assms len by (intro indexOfFrom_first) (simp_all add: length_CRLF)
  then have idx: "indexOf response (CRLF @ CRLF) = int k"
    by (simp add: indexOf_def)
  have "substringFrom response (k + 4) = drop (k + 4) response"
    using len by (simp add: substringFrom_def substring_def Let_def)
  with idx assms(3) show ?thesis
    by (simp add: extractBody_def Let_def nat_add_distrib)
qed

lemma extractBody_boundary_first:
  assumes "take 4 response = CRLF @ CRLF"
  shows "extractBody response = response"
proof -
  have "indexOfFrom (CRLF @ CRLF) response 0 = 0 + int 0"
    using assms by (intro indexOfFrom_first) (simp_all add: length_CRLF)
  then show ?thesis
    by (simp add: extractBody_def indexOf_def)
qed

text \<open>
  C6. The claim fails for a response that begins with the boundary: \<open>indexOf\<close> returns
  \<open>0\<close> there, the test \<open>jsonStart > 0\<close> of line 72 fails as it does for the \<open>-1\<close> of
  a missing boundary, and nothing is discarded. For the response \<open>CRLF CRLF {}\<close> the
  body handed to the JSON library is the whole response, not \<open>{}\<close>; one byte in front
  of the boundary is enough for it to be stripped.
\<close>

theorem extractBody_leading_boundary_kept:
  "indexOf (CRLF @ CRLF @ ''{}'') (CRLF @ CRLF) = 0
   \<and> extractBody (CRLF @ CRLF @ ''{}'') = CRLF @ CRLF @ ''{}''
   \<and> extractBody (CRLF @ CRLF @ ''{}'') \<noteq> ''{}''
   \<and> extractBody (''H'' @ CRLF @ CRLF @ ''{}'') = ''{}''"
  by (simp add: extractBody_def indexOf_def CRLF_def CR_def LF_def substringFrom_def substring_def)

section \<open>Validation before a request\<close>

text \<open>
  The text-only entry point checks the configuration first: a temperature outside of
  \<open>[0, 1]\<close> ends the call with the invalid-input code before the retry policy, and with
  it the transport, is reached.
\<close>

lemma getGPTAnswer_rejects_temperature:
  assumes "temp < 0 \<or> 1 < temp"
  shows "getGPTAnswer J floatString nets inputText apiKey modelId systemPrompt temp =
           (ERROR_INVALID_INPUT, [])"
  using assms by (auto simp add: getGPTAnswer_def validateConfig_def split: option.splits)

text \<open>A policy that is allowed an attempt makes one.\<close>

lemma retry_invokes_transport:
  assumes "0 < maxRetries"
  shows "0 < invocations (snd (sendHttpRequestWithRetry J nets payload apiKey maxRetries))"
  unfolding sendHttpRequestWithRetry_def
  using assms by (subst retryLoop.simps) (simp add: split_beta Let_def)

text \<open>
  The other two entry points check only the input text; whatever the temperature, a
  call with a text (and, for the camera, a captured image) reaches the transport.
\<close>

lemma getGPTAnswer_urlimg_invokes_transport:
  assumes "inputText \<noteq> []"
  shows "0 < invocations (snd (getGPTAnswer_urlimg J floatString nets inputText imageUrl
                                 apiKey modelId systemPrompt temp))"
  using assms by (simp add: getGPTAnswer_urlimg_def Let_def retry_invokes_transport)

lemma getGPTAnswer_camera_invokes_transport:
  assumes "inputText \<noteq> []" "captured \<noteq> []" "captured \<noteq> ''NULL''"
  shows "0 < invocations (snd (getGPTAnswer_camera J floatString nets captured inputText
                                 apiKey modelId systemPrompt temp))"
  using assms by (simp add: getGPTAnswer_camera_def Let_def retry_invokes_transport)

text \<open>
  C7. The claim fails for the entry points that never call \<open>validateConfig\<close>. With the
  temperature \<open>1.1\<close>, which \<open>validateConfig\<close> refuses and for which \<open>getGPTAnswer\<close>
  returns the invalid-input code without an invocation, \<open>getGPTAnswer_urlimg\<close> and
  \<open>getGPTAnswer_camera\<close> go to the network: on a network that refuses the connection
  they invoke the transport three times and return the network error code, and on one
  that answers, \<open>getGPTAnswer_urlimg\<close> returns the answer.
\<close>

theorem image_entry_points_skip_validation:
  "\<not> validateConfig (Some ''key'') ''m'' (11 / 10)
   \<and> getGPTAnswer referenceJson (\<lambda>t. ''1.10'') (\<lambda>n. refusing)
        ''hi'' (Some ''key'') ''m'' ''p'' (11 / 10) = (ERROR_INVALID_INPUT, [])
   \<and> fst (getGPTAnswer_urlimg referenceJson (\<lambda>t. ''1.10'') (\<lambda>n. refusing)
        ''hi'' ''http://host/cat.jpg'' (Some ''key'') ''m'' ''p'' (11 / 10)) = ERROR_NETWORK
   \<and> invocations (snd (getGPTAnswer_urlimg referenceJson (\<lambda>t. ''1.10'') (\<lambda>n. refusing)
        ''hi'' ''http://host/cat.jpg'' (Some ''key'') ''m'' ''p'' (11 / 10))) = 3
   \<and> fst (getGPTAnswer_camera referenceJson (\<lambda>t. ''1.10'') (\<lambda>n. refusing) ''QUJD''
        ''hi'' (Some ''key'') ''m'' ''p'' (11 / 10)) = ERROR_NETWORK
   \<and> invocations (snd (getGPTAnswer_camera referenceJson (\<lambda>t. ''1.10'') (\<lambda>n. refusing) ''QUJD''
        ''hi'' (Some ''key'') ''m'' ''p'' (11 / 10))) = 3
   \<and> fst (getGPTAnswer_urlimg referenceJson (\<lambda>t. ''1.10'')
        (\<lambda>n. replying (httpOk (chatReply ''a cat'')))
        ''hi'' ''http://host/cat.jpg'' (Some ''key'') ''m'' ''p'' (11 / 10)) = ''a cat''"
proof -
  have a: "\<not> validateConfig (Some ''key'') ''m'' (11 / 10)"
    by (simp add: validateConfig_def)
  have b: "getGPTAnswer referenceJson (\<lambda>t. ''1.10'') (\<lambda>n. refusing)
        ''hi'' (Some ''key'') ''m'' ''p'' (11 / 10) = (ERROR_INVALID_INPUT, [])"
    by (simp add: getGPTAnswer_def validateConfig_def)
  have c: "getGPTAnswer_urlimg referenceJson (\<lambda>t. ''1.10'') (\<lambda>n. refusing)
        ''hi'' ''http://host/cat.jpg'' (Some ''key'') ''m'' ''p'' (11 / 10) =
          (ERROR_NETWORK, [Invoke [], Sleep 1000, Invoke [], Sleep 2000, Invoke []])"
    by code_simp
  have d: "getGPTAnswer_camera referenceJson (\<lambda>t. ''1.10'') (\<lambda>n. refusing) ''QUJD''
        ''hi'' (Some ''key'') ''m'' ''p'' (11 / 10) =
          (ERROR_NETWORK, [Invoke [], Sleep 1000, Invoke [], Sleep 2000, Invoke []])"
    by code_simp
  have e: "fst (getGPTAnswer_urlimg referenceJson (\<lambda>t. ''1.10'')
        (\<lambda>n. replying (httpOk (chatReply ''a cat'')))
        ''hi'' ''http://host/cat.jpg'' (Some ''key'') ''m'' ''p'' (11 / 10)) = ''a cat''"
    by code_simp
  show ?thesis
    unfolding c d using a b e by simp
qed

section \<open>The failure codes of the transport\<close>

lemma sendHttpRequest_refused:
  "\<not> connect_ok nw \<Longrightarrow> sendHttpRequest J nw payload apiKey = (ERROR_NETWORK, [])"
  by (simp add: sendHttpRequest_def)

lemma sendHttpRequest_connected:
  assumes "connect_ok nw"
  shows "fst (sendHttpRequest J nw payload apiKey) =
           (let response = fst (readLoop (polls nw) (now nw + 300000) [])
            in if response = [] then ERROR_TIMEOUT
               else case deserializeJson J (extractBody response) of
                      Some jsonDoc \<Rightarrow> choiceContent J jsonDoc
                    | None \<Rightarrow> ERROR_JSON_PARSE)"
  using assms by (simp add: sendHttpRequest_def Let_def split_beta split: option.splits)


text \<open>
  What the transport does on an established connection: it writes the request, runs the
  read loop and closes the socket.
\<close>

lemma sendHttpRequest_events:
  assumes "connect_ok nw"
  shows "snd (sendHttpRequest J nw payload apiKey) =
           sendRequest payload apiKey @ snd (readLoop (polls nw) (now nw + 300000) []) @ [Stop]"
  using assms by (simp add: sendHttpRequest_def Let_def split_beta split: option.splits)

text \<open>
  C8, as the code has it. A refused connection gives the network error code and not a
  single write; an established connection on which no byte is read gives the timeout
  code. The converse holds up to the content of a reply: the transport returns the
  network error code exactly when the connection is refused, or when it is established,
  bytes are read, the body is accepted by the JSON library and the extracted content is
  that very code; and it returns the timeout code exactly when the connection is
  established and either no byte is read or the extracted content is that very code.
\<close>

theorem transport_failure_codes:
  "(\<not> connect_ok nw \<longrightarrow> sendHttpRequest J nw payload apiKey = (ERROR_NETWORK, []))
   \<and> (connect_ok nw \<and> fst (readLoop (polls nw) (now nw + 300000) []) = [] \<longrightarrow>
        fst (sendHttpRequest J nw payload apiKey) = ERROR_TIMEOUT)
   \<and> ((fst (sendHttpRequest J nw payload apiKey) = ERROR_NETWORK) =
        (\<not> connect_ok nw
         \<or> (fst (readLoop (polls nw) (now nw + 300000) []) \<noteq> []
            \<and> map_option (choiceContent J)
                 (deserializeJson J (extractBody (fst (readLoop (polls nw) (now nw + 300000) []))))
               = Some ERROR_NETWORK)))
   \<and> ((fst (sendHttpRequest J nw payload apiKey) = ERROR_TIMEOUT) =
        (connect_ok nw
         \<and> (fst (readLoop (polls nw) (now nw + 300000) []) = []
            \<or> map_option (choiceContent J)
                 (deserializeJson J (extractBody (fst (readLoop (polls nw) (now nw + 300000) []))))
               = Some ERROR_TIMEOUT)))"
proof -
  have codes: "ERROR_TIMEOUT \<noteq> ERROR_NETWORK" "ERROR_JSON_PARSE \<noteq> ERROR_NETWORK"
    "ERROR_JSON_PARSE \<noteq> ERROR_TIMEOUT" "ERROR_NETWORK \<noteq> ERROR_TIMEOUT"
    by (simp_all add: ERROR_TIMEOUT_def ERROR_NETWORK_def ERROR_JSON_PARSE_def)
  show ?thesis
  proof (cases "connect_ok nw")
    case False
    then show ?thesis
      by (simp add: sendHttpRequest_refused codes)
  next
    case True
    show ?thesis
      using True codes
      by (auto simp add: sendHttpRequest_connected Let_def split: option.splits)
  qed
qed

theorem transport_failure_codes_witness:
  "\<not> connect_ok refusing
   \<and> sendHttpRequest referenceJson refusing ''{}'' (Some ''key'') = (ERROR_NETWORK, [])
   \<and> connect_ok silent
   \<and> fst (readLoop (polls silent) (now silent + 300000) []) = []
   \<and> fst (sendHttpRequest referenceJson silent ''{}'' (Some ''key'')) = ERROR_TIMEOUT"
proof -
  have a: "\<not> connect_ok refusing" "connect_ok silent"
    "fst (readLoop (polls silent) (now silent + 300000) []) = []"
    by (simp_all add: refusing_def silent_def)
  show ?thesis
    using a transport_failure_codes [of refusing referenceJson "''{}''" "Some ''key''"]
      transport_failure_codes [of silent referenceJson "''{}''" "Some ''key''"]
    by simp
qed

text \<open>
  The claim as stated fails on a reply whose content is one of the codes: the
  connection is established and the reply is read, and the transport returns the network
  error code for the content \<open><network_error>\<close> and the timeout code for the content
  \<open><timeout_error>\<close>.
\<close>

theorem transport_failure_code_from_reply:
  "connect_ok (replying (httpOk (chatReply ''<network_error>'')))
   \<and> fst (sendHttpRequest referenceJson (replying (httpOk (chatReply ''<network_error>'')))
            ''{}'' (Some ''key'')) = ERROR_NETWORK
   \<and> connect_ok (replying (httpOk (chatReply ''<timeout_error>'')))
   \<and> fst (readLoop (polls (replying (httpOk (chatReply ''<timeout_error>''))))
            (now (replying (httpOk (chatReply ''<timeout_error>''))) + 300000) [])
       = httpOk (chatReply ''<timeout_error>'')
   \<and> fst (sendHttpRequest referenceJson (replying (httpOk (chatReply ''<timeout_error>'')))
            ''{}'' (Some ''key'')) = ERROR_TIMEOUT"
  by code_simp

section \<open>Reading the payload back\<close>

lemma scan_plain_string:
  "jsonPlain s \<Longrightarrow>
   scan (InString acc) (s @ DQUOTE # rest) = emit (TString (acc @ s)) (scan Idle rest)"
  by (induction s arbitrary: acc) (simp_all add: jsonPlain_def)

lemma scan_number_chars:
  "list_all isNumberChar s \<Longrightarrow> \<not> isNumberChar d \<Longrightarrow>
   scan (InNumber acc) (s @ d # rest) =
     (if validNumber (acc @ s) then emit (TNumber (acc @ s)) (scan Idle (d # rest)) else None)"
  by (induction s arbitrary: acc) simp_all

lemma numberChar_dropWhile:
  "list_all isNumberChar (dropWhile isDigit s) \<Longrightarrow> list_all isNumberChar s"
  by (induction s) (auto simp: isNumberChar_def split: if_splits)

lemma numberChar_digits: "list_all isDigit s \<Longrightarrow> list_all isNumberChar s"
  by (induction s) (auto simp: isNumberChar_def)

lemma validExponent_chars: "validExponent s \<Longrightarrow> list_all isNumberChar s"
proof (cases s)
  case Nil
  then show ?thesis by simp
next
  case (Cons c r)
  assume v: "validExponent s"
  with Cons have c: "isNumberChar c" and d: "list_all isDigit (dropSign r)"
    by (auto simp: validExponent_def isNumberChar_def)
  have "list_all isNumberChar r"
  proof (cases r)
    case Nil
    then show ?thesis by simp
  next
    case (Cons e r')
    with d show ?thesis
      by (auto simp: dropSign_def isNumberChar_def dest: numberChar_digits split: if_splits)
  qed
  with c Cons show ?thesis by simp
qed

lemma validFraction_chars: "validFraction s \<Longrightarrow> list_all isNumberChar s"
proof (cases s)
  case Nil
  then show ?thesis by simp
next
  case (Cons c r)
  assume v: "validFraction s"
  show ?thesis
  proof (cases "c = CHR ''.''")
    case True
    with v Cons have "validExponent (dropWhile isDigit r)"
      by (simp add: validFraction_def)
    then have "list_all isNumberChar (dropWhile isDigit r)"
      by (rule validExponent_chars)
    then have "list_all isNumberChar r"
      by (rule numberChar_dropWhile)
    with True Cons show ?thesis by (simp add: isNumberChar_def)
  next
    case False
    with v Cons have "validExponent s" by (simp add: validFraction_def)
    then show ?thesis by (rule validExponent_chars)
  qed
qed

lemma validNumber_chars:
  assumes "validNumber s"
  shows "\<exists>c r. s = c # r \<and> (c = CHR ''-'' \<or> isDigit c) \<and> list_all isNumberChar r"
proof -
  have body: "list_all isNumberChar r \<and> isDigit d"
    if v: "(if d = CHR ''0'' then validFraction r else isDigit d \<and> validFraction (dropWhile isDigit r))"
    for d r
  proof (cases "d = CHR ''0''")
    case True
    with v have "validFraction r" by simp
    then have "list_all isNumberChar r" by (rule validFraction_chars)
    with True show ?thesis by (simp add: isDigit_def)
  next
    case False
    with v have d: "isDigit d" and "validFraction (dropWhile isDigit r)" by simp_all
    then have "list_all isNumberChar (dropWhile isDigit r)" by (intro validFraction_chars)
    then have "list_all isNumberChar r" by (rule numberChar_dropWhile)
    with d show ?thesis by simp
  qed
  show ?thesis
  proof (cases s)
    case Nil
    with assms show ?thesis by (simp add: validNumber_def)
  next
    case (Cons c r)
    show ?thesis
    proof (cases "c = CHR ''-''")
      case True
      with assms Cons obtain d r' where r: "r = d # r'"
        and v: "(if d = CHR ''0'' then validFraction r'
                 else isDigit d \<and> validFraction (dropWhile isDigit r'))"
        by (cases r) (auto simp: validNumber_def)
      from body [OF v] r have "list_all isNumberChar r"
        by (simp add: isNumberChar_def)
      with True Cons show ?thesis by simp
    next
      case False
      with assms Cons have
        v: "(if c = CHR ''0'' then validFraction r
             else isDigit c \<and> validFraction (dropWhile isDigit r))"
        by (simp add: validNumber_def)
      from body [OF v] Cons show ?thesis by simp
    qed
  qed
qed



lemma scan_number:
  assumes "validNumber n" "\<not> isNumberChar d"
  shows "scan Idle (n @ d # rest) = emit (TNumber n) (scan Idle (d # rest))"
proof -
  from validNumber_chars [OF assms(1)] obtain c r where
    n: "n = c # r" and c: "c = CHR ''-'' \<or> isDigit c" and r: "list_all isNumberChar r"
    by blast
  from c have other:
    "\<not> isSpace c \<and> c \<noteq> CHR ''{'' \<and> c \<noteq> CHR ''}'' \<and> c \<noteq> CHR ''['' \<and> c \<noteq> CHR '']''
     \<and> c \<noteq> CHR '':'' \<and> c \<noteq> CHR '','' \<and> c \<noteq> DQUOTE"
    by (auto simp: isDigit_def isSpace_def DQUOTE_def CR_def LF_def)
  have start: "scan Idle (c # r @ d # rest) = scan (InNumber [c]) (r @ d # rest)"
    using c other by simp
  have whole: "[c] @ r = n"
    by (simp add: n)
  have "scan Idle (n @ d # rest) = scan (InNumber [c]) (r @ d # rest)"
    by (simp only: n append_Cons start)
  also have "\<dots> = (if validNumber ([c] @ r) then emit (TNumber ([c] @ r)) (scan Idle (d # rest))
                    else None)"
    using r assms(2) by (rule scan_number_chars)
  also have "\<dots> = emit (TNumber n) (scan Idle (d # rest))"
    using assms(1) by (simp only: whole if_True)
  finally show ?thesis .
qed


lemma scan_text_payload:
  assumes "jsonPlain inputText" "jsonPlain modelId" "jsonPlain systemPrompt"
    and "validNumber (floatString temp)"
  shows "scan Idle (buildPayload floatString inputText modelId systemPrompt temp [] []) =
    Some [TLBrace, TString ''model'', TColon, TString modelId, TComma,
          TString ''messages'', TColon, TLBracket,
            TLBrace, TString ''role'', TColon, TString ''system'', TComma,
                     TString ''content'', TColon, TString systemPrompt, TRBrace, TComma,
            TLBrace, TString ''role'', TColon, TString ''user'', TComma,
                     TString ''content'', TColon, TLBracket,
                       TLBrace, TString ''type'', TColon, TString ''text'', TComma,
                                TString ''text'', TColon, TString inputText, TRBrace,
                     TRBracket, TRBrace,
          TRBracket, TComma,
          TString ''temperature'', TColon, TNumber (floatString temp), TRBrace]"
proof -
  have close: "\<not> isNumberChar (CHR ''}'')"
    by (simp add: isNumberChar_def isDigit_def)
  note str = scan_plain_string [unfolded DQUOTE_def]
  note num = scan_number [OF assms(4) close]
  show ?thesis
    unfolding buildPayload_def
    by (simp add: str assms(1-3) num isSpace_def isControl_def DQUOTE_def BACKSLASH_def
          CR_def LF_def)
qed


text \<open>
  The document that a text-only payload is, when the three texts need no escaping and
  the temperature is rendered as a JSON number.
\<close>

lemma parse_text_payload:
  assumes "jsonPlain inputText" "jsonPlain modelId" "jsonPlain systemPrompt"
    and "validNumber (floatString temp)"
  shows "parseJson (buildPayload floatString inputText modelId systemPrompt temp [] []) =
    Some (JObject
      [(''model'', JString modelId),
       (''messages'', JArray
          [JObject [(''role'', JString ''system''), (''content'', JString systemPrompt)],
           JObject [(''role'', JString ''user''),
                    (''content'', JArray
                       [JObject [(''type'', JString ''text''), (''text'', JString inputText)]])]]),
       (''temperature'', JNumber (floatString temp))])"
  using assms by (simp add: parseJson_def scan_text_payload)

text \<open>
  C9, as the code has it. \<open>buildPayload\<close> copies its texts between double quotes as they
  are. For an input text, a model id and a system prompt without double quote, backslash
  and control character, a temperature rendered as a JSON number, and no image, the
  payload reads back as a document whose \<open>messages[1].content\<close> is the one-element array
  \<open>[{"type":"text","text":<input text>}]\<close>; it has no \<open>image_url\<close> entry.
\<close>

theorem text_payload_content:
  assumes "jsonPlain inputText" "jsonPlain modelId" "jsonPlain systemPrompt"
    and "validNumber (floatString temp)"
  shows "member ''content'' (element 1 (member ''messages''
           (parseJson (buildPayload floatString inputText modelId systemPrompt temp [] [])))) =
         Some (JArray [JObject [(''type'', JString ''text''), (''text'', JString inputText)]])"
  using assms by (simp add: parse_text_payload member_def element_def)

theorem text_payload_content_witness:
  "jsonPlain ''hi'' \<and> jsonPlain ''m'' \<and> jsonPlain ''p'' \<and> validNumber ''0.50''
   \<and> member ''content'' (element 1 (member ''messages''
         (parseJson (buildPayload (\<lambda>t. ''0.50'') ''hi'' ''m'' ''p'' (1 / 2) [] [])))) =
       Some (JArray [JObject [(''type'', JString ''text''), (''text'', JString ''hi'')]])"
proof -
  have plain: "jsonPlain ''hi''" "jsonPlain ''m''" "jsonPlain ''p''"
    by code_simp+
  have number: "validNumber ''0.50''"
    by code_simp
  show ?thesis
    using plain number
      text_payload_content [of "''hi''" "''m''" "''p''" "\<lambda>t. ''0.50''" "1 / 2"]
    by simp
qed


text \<open>
  The claim as stated fails on a text with a double quote. The payload built from the
  text \<open>say "hi"\<close> is not JSON at all; and a text that closes the string and opens entries
  of its own yields a content array of three entries, one of them an \<open>image_url\<close> entry.
\<close>

theorem text_payload_content_quoted_text:
  \<open>parseJson (buildPayload (\<lambda>t. ''0.50'') ''say "hi"'' ''m'' ''p'' (1 / 2) [] []) = None
   \<and> member ''content'' (element 1 (member ''messages''
         (parseJson (buildPayload (\<lambda>t. ''0.50'') ''say "hi"'' ''m'' ''p'' (1 / 2) [] []))))
       \<noteq> Some (JArray [JObject [(''type'', JString ''text''), (''text'', JString ''say "hi"'')]])
   \<and> member ''content'' (element 1 (member ''messages''
         (parseJson (buildPayload (\<lambda>t. ''0.50'')
            ''hi"},{"type":"image_url","image_url":{"url":"http://host/x.jpg"}},{"type":"text","text":"again''
            ''m'' ''p'' (1 / 2) [] []))))
       = Some (JArray
           [JObject [(''type'', JString ''text''), (''text'', JString ''hi'')],
            JObject [(''type'', JString ''image_url''),
                     (''image_url'', JObject [(''url'', JString ''http://host/x.jpg'')])],
            JObject [(''type'', JString ''text''), (''text'', JString ''again'')]])\<close>
  by code_simp

end
